theory Spec2Isabelle
  imports Main "HOL-Library.Word" "HOL-Library.Signed_Division"
begin

section \<open>Go integers\<close>

text \<open>
  The program uses Go's \<open>int\<close> (64 bits on the usual 64-bit targets) and \<open>int64\<close>.
  Both are two's complement machine integers: \<open>+\<close> wraps around, \<open>/\<close> truncates
  towards zero and panics when the divisor is zero, comparisons are signed.
\<close>

type_synonym go_int = "64 word"
type_synonym int64 = "64 word"

datatype panic = IntegerDivideByZero

text \<open>The quotient of Go's \<open>/\<close> for a divisor known to be non-zero.\<close>

definition go_quo :: "64 word \<Rightarrow> 64 word \<Rightarrow> 64 word" where
  "go_quo a b = word_of_int (sint a sdiv sint b)"

text \<open>Go's \<open>/\<close> on a divisor that is only known at run time.\<close>

definition go_div :: "64 word \<Rightarrow> 64 word \<Rightarrow> panic + 64 word" where
  "go_div a b = (if b = 0 then Inl IntegerDivideByZero else Inr (go_quo a b))"

subsection \<open>Printing integers with \<open>%v\<close>\<close>

definition digit :: "nat \<Rightarrow> char" where
  "digit d = ''0123456789'' ! d"

function show_nat :: "nat \<Rightarrow> string" where
  "show_nat n = (if n < 10 then [digit n] else show_nat (n div 10) @ [digit (n mod 10)])"
  by pat_completeness auto
termination
  by (relation "measure (\<lambda>n. n)") auto

declare show_nat.simps [simp del]

definition show_int :: "int \<Rightarrow> string" where
  "show_int i = (if i < 0 then CHR ''-'' # show_nat (nat (- i)) else show_nat (nat i))"

definition fmt_v :: "go_int \<Rightarrow> string" where
  "fmt_v w = show_int (sint w)"

section \<open>The data of \<open>spectest.go\<close>\<close>

record hostMetrics =
  attempts :: go_int
  latency :: go_int

text \<open>
  \<open>metrics\<close> is a \<open>map[string]*hostMetrics\<close>. The only store into it writes the address
  of a freshly allocated struct, so no two keys share a struct and no stored pointer is
  nil: the map is a partial function from host names to struct values.
\<close>

record testQueryObserver =
  metrics :: "string \<rightharpoonup> hostMetrics"
  verbose :: bool

type_synonym error = string

text \<open>
  The fields of the driver's \<open>ObservedQuery\<close> that \<open>ObserveQuery\<close> reads.
  \<open>Host\<close> stands for \<open>q.Host.ConnectAddress().String()\<close>, \<open>Metrics_Attempts\<close> and
  \<open>Metrics_TotalLatency\<close> for \<open>q.Metrics.Attempts\<close> (an \<open>int\<close>) and
  \<open>q.Metrics.TotalLatency\<close> (an \<open>int64\<close> of nanoseconds), \<open>Err = None\<close> for a nil
  error. \<open>Start\<close> and \<open>End\<close> are instants in nanoseconds. The record describes the
  events for which the driver's accessors return: \<open>q.Host\<close> and \<open>q.Metrics\<close> are not nil.
\<close>

record ObservedQuery =
  Statement :: string
  Rows :: go_int
  Start :: int
  End :: int
  Host :: string
  Metrics_Attempts :: go_int
  Metrics_TotalLatency :: int64
  Err :: "error option"

text \<open>
  What the program writes to standard output: the verbose line of \<open>ObserveQuery\<close>, kept
  as the arguments handed to \<open>Printf\<close> (statement, rows, end and start of the
  subtraction, host, attempts, total latency, error), and the summary lines of
  \<open>GetMetrics\<close> as text.
\<close>

datatype printed =
  VerboseLine string go_int int int string go_int int64 "error option"

section \<open>The observer\<close>

definition ObserveQuery :: "testQueryObserver \<Rightarrow> ObservedQuery \<Rightarrow> testQueryObserver \<times> printed list" where
  "ObserveQuery ob q =
     (let host = Host q;
          curMetric = metrics ob host;
          curAttempts = (case curMetric of None \<Rightarrow> 0 | Some m \<Rightarrow> attempts m);
          curLatency = (case curMetric of None \<Rightarrow> 0 | Some m \<Rightarrow> latency m);
          ob' = (if Err q = None
                 then ob\<lparr>metrics := (metrics ob)(host \<mapsto>
                        \<lparr>attempts = Metrics_Attempts q + curAttempts,
                         latency = curLatency + go_quo (Metrics_TotalLatency q) 1000000\<rparr>)\<rparr>
                 else ob);
          out = (if verbose ob
                 then [VerboseLine (Statement q) (Rows q) (End q) (Start q) host
                         (Metrics_Attempts q) (Metrics_TotalLatency q) (Err q)]
                 else [])
      in (ob', out))"

text \<open>
  The driver calls \<open>ObserveQuery\<close> once for every event it reports; \<open>observe_all\<close>
  delivers a sequence of events in order, each call working on the store left by the
  one before.
\<close>

fun observe_all :: "testQueryObserver \<Rightarrow> ObservedQuery list \<Rightarrow> testQueryObserver" where
  "observe_all ob [] = ob"
| "observe_all ob (q # qs) = observe_all (fst (ObserveQuery ob q)) qs"

definition summary_line :: "string \<Rightarrow> go_int \<Rightarrow> go_int \<Rightarrow> string" where
  "summary_line h n avg =
     ''Host: '' @ h @ '', Attempts: '' @ fmt_v n @ '', Avg Latency: '' @ fmt_v avg @ ''ms'' @ [CHR 0x0A]"

text \<open>
  \<open>GetMetrics\<close> ranges over the map. Go leaves the order of a \<open>range\<close> over a map
  unspecified and yields every key once: the order is the argument \<open>hs\<close> (a name in
  \<open>hs\<close> that is not a key of the map yields no iteration). The result is
  the lines printed and, when the loop stopped in a run-time panic, that panic; the
  operands of \<open>Printf\<close> are evaluated before it prints, so a panicking iteration prints
  nothing.
\<close>

fun GetMetrics :: "testQueryObserver \<Rightarrow> string list \<Rightarrow> string list \<times> panic option" where
  "GetMetrics ob [] = ([], None)"
| "GetMetrics ob (h # hs) =
     (case metrics ob h of
        None \<Rightarrow> GetMetrics ob hs
      | Some m \<Rightarrow>
          (case go_div (latency m) (attempts m) of
             Inl p \<Rightarrow> ([], Some p)
           | Inr avg \<Rightarrow>
               (case GetMetrics ob hs of
                  (out, r) \<Rightarrow> (summary_line h (attempts m) avg # out, r))))"

definition range_order :: "testQueryObserver \<Rightarrow> string list \<Rightarrow> bool" where
  "range_order ob hs = (distinct hs \<and> set hs = dom (metrics ob))"

section \<open>The retry policy\<close>

record RT =
  num :: go_int

text \<open>
  The driver's \<open>RetryableQuery\<close> is an interface; \<open>Attempt\<close> calls its method
  \<open>Attempts()\<close> only. Any further content of the query is the extension of the record.
\<close>

record RetryableQuery =
  Attempts :: go_int

datatype RetryType = Retry | RetryNextHost | Ignore | Rethrow

definition Attempt :: "RT \<Rightarrow> 'a RetryableQuery_scheme \<Rightarrow> bool" where
  "Attempt rt q = (Attempts q \<le>s num rt)"

definition GetRetryType :: "RT \<Rightarrow> error \<Rightarrow> RetryType" where
  "GetRetryType rt err = Rethrow"

section \<open>The configuration in \<open>main\<close>\<close>

definition main_RetryPolicy :: RT where
  "main_RetryPolicy = \<lparr>num = 3\<rparr>"

definition main_observer :: testQueryObserver where
  "main_observer = \<lparr>metrics = Map.empty, verbose = False\<rparr>"

section \<open>Notions used to state the properties\<close>

text \<open>
  A success event for host \<open>h\<close>, and what a sequence of events reports for \<open>h\<close> in its
  success events: the attempts, and the latency in the milliseconds \<open>ObserveQuery\<close>
  computes. The sums are Go \<open>int\<close> sums.
\<close>

definition succeeded_on :: "string \<Rightarrow> ObservedQuery \<Rightarrow> bool" where
  "succeeded_on h q = (Err q = None \<and> Host q = h)"

definition reported_attempts :: "string \<Rightarrow> ObservedQuery list \<Rightarrow> go_int" where
  "reported_attempts h qs = sum_list (map Metrics_Attempts (filter (succeeded_on h) qs))"

definition reported_millis :: "string \<Rightarrow> ObservedQuery list \<Rightarrow> go_int" where
  "reported_millis h qs =
     sum_list (map (\<lambda>q. go_quo (Metrics_TotalLatency q) 1000000) (filter (succeeded_on h) qs))"

text \<open>The values \<open>curAttempts\<close> and \<open>curLatency\<close> that \<open>ObserveQuery\<close> reads for a host.\<close>

definition cur_attempts :: "testQueryObserver \<Rightarrow> string \<Rightarrow> go_int" where
  "cur_attempts ob h = (case metrics ob h of None \<Rightarrow> 0 | Some m \<Rightarrow> attempts m)"

definition cur_latency :: "testQueryObserver \<Rightarrow> string \<Rightarrow> go_int" where
  "cur_latency ob h = (case metrics ob h of None \<Rightarrow> 0 | Some m \<Rightarrow> latency m)"

text \<open>The attempts recorded in the whole store.\<close>

definition store_attempts :: "testQueryObserver \<Rightarrow> go_int" where
  "store_attempts ob = (\<Sum>h \<in> dom (metrics ob). cur_attempts ob h)"

text \<open>The line \<open>GetMetrics\<close> prints for a host of the store.\<close>

definition host_line :: "testQueryObserver \<Rightarrow> string \<Rightarrow> string" where
  "host_line ob h =
     (case metrics ob h of
        None \<Rightarrow> []
      | Some m \<Rightarrow> summary_line h (attempts m) (go_quo (latency m) (attempts m)))"

text \<open>An event with the given host, attempts, total latency and error.\<close>

definition observed :: "string \<Rightarrow> go_int \<Rightarrow> int64 \<Rightarrow> error option \<Rightarrow> ObservedQuery" where
  "observed h a l e =
     \<lparr>Statement = ''INSERT INTO example.tweet (id, timeline, data) VALUES (?, 'me', ?)'',
      Rows = 0, Start = 0, End = sint l, Host = h,
      Metrics_Attempts = a, Metrics_TotalLatency = l, Err = e\<rparr>"

text \<open>A store with the given content.\<close>

definition store :: "(string \<times> go_int \<times> go_int) list \<Rightarrow> testQueryObserver" where
  "store es = \<lparr>metrics = map_of (map (\<lambda>(h, a, l). (h, \<lparr>attempts = a, latency = l\<rparr>)) es),
               verbose = False\<rparr>"

section \<open>Arithmetic of Go integers\<close>








lemma sint_sum_list:
  fixes ws :: "64 word list"
  assumes "\<forall>w \<in> set ws. 0 \<le> sint w" and "sum_list (map sint ws) < 2 ^ 63"
  shows "sint (sum_list ws) = sum_list (map sint ws)"
  using assms
proof (induction ws)
  case Nil
  show ?case by simp
next
  case (Cons w ws)
  have nn: "0 \<le> sum_list (map sint ws)"
    using Cons.prems(1) by (intro sum_list_nonneg) auto
  have w0: "0 \<le> sint w" using Cons.prems(1) by simp
  have "sum_list (map sint ws) < 2 ^ 63" using Cons.prems(2) w0 by simp
  with Cons have IH: "sint (sum_list ws) = sum_list (map sint ws)" by simp
  have "sint (w + sum_list ws) = signed_take_bit 63 (sint w + sint (sum_list ws))"
    by (simp add: sint_word_ariths)
  also have "\<dots> = sint w + sint (sum_list ws)"
    using Cons.prems(2) w0 nn IH by (intro signed_take_bit_int_eq_self) simp_all
  finally show ?case using IH by simp
qed

section \<open>What one call and a sequence of calls do to the store\<close>

lemma ObserveQuery_error: "Err q \<noteq> None \<Longrightarrow> fst (ObserveQuery ob q) = ob"
  by (auto simp add: ObserveQuery_def Let_def)

lemma observe_all_snoc: "observe_all ob (qs @ [q]) = fst (ObserveQuery (observe_all ob qs) q)"
  by (induction qs arbitrary: ob) simp_all

lemma ObserveQuery_entry:
  "metrics (fst (ObserveQuery ob q)) h =
     (if succeeded_on h q
      then Some \<lparr>attempts = cur_attempts ob h + Metrics_Attempts q,
                 latency = cur_latency ob h + go_quo (Metrics_TotalLatency q) 1000000\<rparr>
      else metrics ob h)"
  by (auto simp add: ObserveQuery_def Let_def succeeded_on_def cur_attempts_def cur_latency_def)

lemma observe_all_entry:
  "metrics (observe_all ob qs) h =
     (if \<exists>q \<in> set qs. succeeded_on h q
      then Some \<lparr>attempts = cur_attempts ob h + reported_attempts h qs,
                 latency = cur_latency ob h + reported_millis h qs\<rparr>
      else metrics ob h)"
proof (induction qs rule: rev_induct)
  case Nil
  show ?case by simp
next
  case (snoc q qs)
  show ?case
  proof (cases "succeeded_on h q")
    case False
    with snoc show ?thesis
      by (simp add: observe_all_snoc ObserveQuery_entry reported_attempts_def reported_millis_def)
  next
    case True
    show ?thesis
    proof (cases "\<exists>p \<in> set qs. succeeded_on h p")
      case True
      with snoc \<open>succeeded_on h q\<close> show ?thesis
        by (simp add: observe_all_snoc ObserveQuery_entry reported_attempts_def
            reported_millis_def cur_attempts_def cur_latency_def add.assoc)
    next
      case False
      then have "filter (succeeded_on h) qs = []"
        by (simp add: filter_empty_conv)
      with snoc False \<open>succeeded_on h q\<close> show ?thesis
        by (simp add: observe_all_snoc ObserveQuery_entry reported_attempts_def
            reported_millis_def cur_attempts_def cur_latency_def)
    qed
  qed
qed

lemma dom_ObserveQuery:
  "dom (metrics (fst (ObserveQuery ob q))) =
     (if Err q = None then insert (Host q) (dom (metrics ob)) else dom (metrics ob))"
  by (auto simp add: ObserveQuery_def Let_def)

lemma finite_dom_observe_all:
  "finite (dom (metrics ob)) \<Longrightarrow> finite (dom (metrics (observe_all ob qs)))"
  by (induction qs arbitrary: ob) (simp_all add: dom_ObserveQuery)

lemma store_attempts_ObserveQuery:
  assumes "finite (dom (metrics ob))" and "Err q = None"
  shows "store_attempts (fst (ObserveQuery ob q)) = store_attempts ob + Metrics_Attempts q"
proof -
  let ?ob' = "fst (ObserveQuery ob q)"
  let ?D = "dom (metrics ob) - {Host q}"
  have fin: "finite ?D" using assms(1) by simp
  have out: "Host q \<notin> ?D" by simp
  have same: "\<And>h. h \<in> ?D \<Longrightarrow> cur_attempts ?ob' h = cur_attempts ob h"
    by (auto simp add: cur_attempts_def ObserveQuery_entry succeeded_on_def)
  have new: "cur_attempts ?ob' (Host q) = cur_attempts ob (Host q) + Metrics_Attempts q"
    using assms(2) by (simp add: cur_attempts_def ObserveQuery_entry succeeded_on_def)
  have "dom (metrics ?ob') = insert (Host q) ?D"
    using assms(2) by (simp add: dom_ObserveQuery)
  then have "store_attempts ?ob' = (\<Sum>h \<in> insert (Host q) ?D. cur_attempts ?ob' h)"
    by (simp only: store_attempts_def)
  also have "\<dots> = cur_attempts ?ob' (Host q) + (\<Sum>h \<in> ?D. cur_attempts ?ob' h)"
    by (rule sum.insert [OF fin out])
  also have "(\<Sum>h \<in> ?D. cur_attempts ?ob' h) = (\<Sum>h \<in> ?D. cur_attempts ob h)"
    using same by (rule sum.cong [OF refl])
  finally have step: "store_attempts ?ob' =
      cur_attempts ob (Host q) + Metrics_Attempts q + (\<Sum>h \<in> ?D. cur_attempts ob h)"
    using new by simp
  have "store_attempts ob = cur_attempts ob (Host q) + (\<Sum>h \<in> ?D. cur_attempts ob h)"
  proof (cases "Host q \<in> dom (metrics ob)")
    case True
    then have "dom (metrics ob) = insert (Host q) ?D" by auto
    then have "store_attempts ob = (\<Sum>h \<in> insert (Host q) ?D. cur_attempts ob h)"
      by (simp only: store_attempts_def)
    also have "\<dots> = cur_attempts ob (Host q) + (\<Sum>h \<in> ?D. cur_attempts ob h)"
      by (rule sum.insert [OF fin out])
    finally show ?thesis .
  next
    case False
    then have "?D = dom (metrics ob)" and "cur_attempts ob (Host q) = 0"
      by (auto simp add: cur_attempts_def split: option.splits)
    then show ?thesis by (simp add: store_attempts_def)
  qed
  with step show ?thesis by simp
qed

lemma store_attempts_observe_all:
  "finite (dom (metrics ob)) \<Longrightarrow>
   store_attempts (observe_all ob qs) =
   store_attempts ob + sum_list (map Metrics_Attempts (filter (\<lambda>q. Err q = None) qs))"
proof (induction qs arbitrary: ob)
  case Nil
  show ?case by simp
next
  case (Cons q qs)
  show ?case
  proof (cases "Err q = None")
    case True
    have "finite (dom (metrics (fst (ObserveQuery ob q))))"
      using Cons.prems by (simp add: dom_ObserveQuery)
    from Cons.IH [OF this] True Cons.prems show ?thesis
      by (simp add: store_attempts_ObserveQuery add.assoc)
  next
    case False
    then have "fst (ObserveQuery ob q) = ob" by (rule ObserveQuery_error)
    with Cons False show ?thesis by auto
  qed
qed

lemma observe_all_filter: "observe_all ob (filter (\<lambda>q. Err q = None) qs) = observe_all ob qs"
  by (induction qs arbitrary: ob) (simp_all add: ObserveQuery_error)

lemma sum_list_filter_le:
  fixes f :: "'a \<Rightarrow> int"
  assumes "\<forall>x \<in> set xs. 0 \<le> f x"
  shows "sum_list (map f (filter P xs)) \<le> sum_list (map f xs)"
  using assms by (induction xs) (auto intro: add_increasing)

lemma sum_list_ge_1:
  fixes f :: "'a \<Rightarrow> int"
  assumes "\<forall>x \<in> set xs. 1 \<le> f x" and "xs \<noteq> []"
  shows "1 \<le> sum_list (map f xs)"
proof -
  from assms(2) obtain y ys where xs: "xs = y # ys" by (cases xs) auto
  have "0 \<le> sum_list (map f ys)"
    using assms(1) xs by (intro sum_list_nonneg) force
  moreover have "1 \<le> f y" using assms(1) xs by simp
  ultimately show ?thesis using xs by simp
qed

lemma filter_succeeded_on:
  "filter (succeeded_on h) qs = filter (\<lambda>q. Host q = h) (filter (\<lambda>q. Err q = None) qs)"
  by (induction qs) (auto simp add: succeeded_on_def)

lemma sint_reported_attempts:
  assumes pos: "\<forall>q \<in> set qs. Err q = None \<longrightarrow> 1 \<le> sint (Metrics_Attempts q)"
    and bound: "sum_list (map (\<lambda>q. sint (Metrics_Attempts q)) (filter (\<lambda>q. Err q = None) qs)) < 2 ^ 63"
  shows "sint (reported_attempts h qs) =
         sum_list (map (\<lambda>q. sint (Metrics_Attempts q)) (filter (succeeded_on h) qs))"
proof -
  let ?ok = "filter (\<lambda>q. Err q = None) qs"
  let ?on = "filter (succeeded_on h) qs"
  have nn: "\<forall>q \<in> set ?ok. 0 \<le> sint (Metrics_Attempts q)"
    using pos by force
  have "sum_list (map (\<lambda>q. sint (Metrics_Attempts q)) ?on)
        \<le> sum_list (map (\<lambda>q. sint (Metrics_Attempts q)) ?ok)"
    unfolding filter_succeeded_on using nn by (rule sum_list_filter_le)
  with bound have small: "sum_list (map sint (map Metrics_Attempts ?on)) < 2 ^ 63"
    by (simp add: comp_def)
  have "\<forall>w \<in> set (map Metrics_Attempts ?on). 0 \<le> sint w"
    using pos by (force simp add: succeeded_on_def)
  from sint_sum_list [OF this small] show ?thesis
    by (simp add: reported_attempts_def comp_def)
qed

section \<open>What the summary prints\<close>

lemma GetMetrics_eq:
  "set hs \<subseteq> dom (metrics ob) \<Longrightarrow>
   GetMetrics ob hs =
     (map (host_line ob) (takeWhile (\<lambda>h. cur_attempts ob h \<noteq> 0) hs),
      if \<exists>h \<in> set hs. cur_attempts ob h = 0 then Some IntegerDivideByZero else None)"
proof (induction hs)
  case Nil
  show ?case by simp
next
  case (Cons h hs)
  then obtain m where m: "metrics ob h = Some m" by auto
  show ?case
  proof (cases "attempts m = 0")
    case True
    with m show ?thesis by (simp add: go_div_def cur_attempts_def)
  next
    case False
    with m Cons show ?thesis
      by (simp add: go_div_def cur_attempts_def host_line_def)
  qed
qed

lemma fmt_v_4: "fmt_v 4 = ''4''"
  by (simp add: fmt_v_def show_int_def show_nat.simps digit_def)

lemma fmt_v_100: "fmt_v 100 = ''100''"
  by (simp add: fmt_v_def show_int_def show_nat.simps digit_def)

lemma go_quo_400_4: "go_quo 400 4 = 100"
  by (simp add: go_quo_def signed_divide_int_def)

section \<open>Error events\<close>

text \<open>
  Claim C1. For every store and every event whose error is not nil, \<open>ObserveQuery\<close>
  leaves the store as it was: the map is the same, so no entry appears for the event's
  host and no entry changes its attempts or its latency.
\<close>

theorem error_event_leaves_store_unchanged:
  "Err q \<noteq> None \<Longrightarrow>
   metrics (fst (ObserveQuery ob q)) = metrics ob \<and>
   dom (metrics (fst (ObserveQuery ob q))) = dom (metrics ob) \<and>
   metrics (fst (ObserveQuery ob q)) (Host q) = metrics ob (Host q)"
  by (simp add: ObserveQuery_error)

theorem error_event_leaves_store_unchanged_witness:
  "Err (observed ''10.0.0.2'' 3 30000000 (Some ''timeout'')) \<noteq> None \<and>
   metrics (fst (ObserveQuery (store [(''10.0.0.1'', 4, 400)])
                  (observed ''10.0.0.2'' 3 30000000 (Some ''timeout'')))) ''10.0.0.2'' = None \<and>
   metrics (fst (ObserveQuery (store [(''10.0.0.1'', 4, 400)])
                  (observed ''10.0.0.2'' 3 30000000 (Some ''timeout'')))) ''10.0.0.1''
     = Some \<lparr>attempts = 4, latency = 400\<rparr>"
  using error_event_leaves_store_unchanged
    [of "observed ''10.0.0.2'' 3 30000000 (Some ''timeout'')" "store [(''10.0.0.1'', 4, 400)]"]
  by (simp add: observed_def store_def)

section \<open>Success events\<close>

text \<open>
  Claim C2. For every success event for host \<open>h\<close> reporting \<open>a\<close> attempts and total
  latency \<open>l\<close>, the store after \<open>ObserveQuery\<close> is the store before with the entry for
  \<open>h\<close> set to \<open>(a0 + a, l0 + l / 1000000)\<close>, where \<open>(a0, l0)\<close> is the entry before, or
  \<open>(0, 0)\<close> when \<open>h\<close> had none. After any sequence of events the attempts recorded in
  the store are those of the store before plus the attempts of the success events; from
  the empty store of \<open>main\<close> they are the attempts of the success events, and error events
  add nothing. The sums are those of Go's \<open>int\<close>.
\<close>

theorem success_event_merges_into_entry:
  "(Err q = None \<longrightarrow>
      metrics (fst (ObserveQuery ob q)) =
        (metrics ob)(Host q \<mapsto>
          \<lparr>attempts = cur_attempts ob (Host q) + Metrics_Attempts q,
           latency = cur_latency ob (Host q) + go_quo (Metrics_TotalLatency q) 1000000\<rparr>)) \<and>
   (finite (dom (metrics ob)) \<longrightarrow>
      store_attempts (observe_all ob qs) =
        store_attempts ob + sum_list (map Metrics_Attempts (filter (\<lambda>q. Err q = None) qs))) \<and>
   store_attempts (observe_all main_observer qs) =
     sum_list (map Metrics_Attempts (filter (\<lambda>q. Err q = None) qs))"
proof (intro conjI impI)
  assume "Err q = None"
  then show "metrics (fst (ObserveQuery ob q)) =
        (metrics ob)(Host q \<mapsto>
          \<lparr>attempts = cur_attempts ob (Host q) + Metrics_Attempts q,
           latency = cur_latency ob (Host q) + go_quo (Metrics_TotalLatency q) 1000000\<rparr>)"
    by (intro ext) (simp add: ObserveQuery_entry succeeded_on_def)
next
  assume "finite (dom (metrics ob))"
  then show "store_attempts (observe_all ob qs) =
        store_attempts ob + sum_list (map Metrics_Attempts (filter (\<lambda>q. Err q = None) qs))"
    by (rule store_attempts_observe_all)
next
  have "finite (dom (metrics main_observer))" "store_attempts main_observer = 0"
    by (simp_all add: main_observer_def store_attempts_def)
  then show "store_attempts (observe_all main_observer qs) =
     sum_list (map Metrics_Attempts (filter (\<lambda>q. Err q = None) qs))"
    by (simp add: store_attempts_observe_all)
qed

theorem success_event_merges_into_entry_witness:
  "Err (observed ''10.0.0.1'' 2 25999999 None) = None \<and>
   finite (dom (metrics (store [(''10.0.0.1'', 4, 400)]))) \<and>
   metrics (fst (ObserveQuery (store [(''10.0.0.1'', 4, 400)]) (observed ''10.0.0.1'' 2 25999999 None)))
     = [''10.0.0.1'' \<mapsto> \<lparr>attempts = 6, latency = 425\<rparr>] \<and>
   store_attempts (observe_all (store [(''10.0.0.1'', 4, 400)])
      [observed ''10.0.0.1'' 2 25999999 None, observed ''10.0.0.2'' 3 7 (Some ''timeout''),
       observed ''10.0.0.2'' 1 1000000 None]) = 7 \<and>
   store_attempts (observe_all main_observer
      [observed ''10.0.0.1'' 2 25999999 None, observed ''10.0.0.2'' 3 7 (Some ''timeout''),
       observed ''10.0.0.2'' 1 1000000 None]) = 3"
  using success_event_merges_into_entry
    [of "observed ''10.0.0.1'' 2 25999999 None" "store [(''10.0.0.1'', 4, 400)]"
        "[observed ''10.0.0.1'' 2 25999999 None, observed ''10.0.0.2'' 3 7 (Some ''timeout''),
          observed ''10.0.0.2'' 1 1000000 None]"]
  by (simp add: observed_def store_def store_attempts_def cur_attempts_def cur_latency_def
      go_quo_def signed_divide_int_def)

text \<open>
  Claim C8. \<open>ObserveQuery\<close> is not idempotent: a success event delivered twice in a row
  adds its attempts and its milliseconds twice, the entry of its host being the entry
  before plus two times the event's contribution.
\<close>

theorem duplicate_delivery_doubles:
  "Err q = None \<Longrightarrow>
   metrics (fst (ObserveQuery (fst (ObserveQuery ob q)) q)) =
     (metrics ob)(Host q \<mapsto>
        \<lparr>attempts = cur_attempts ob (Host q) + 2 * Metrics_Attempts q,
         latency = cur_latency ob (Host q) + 2 * go_quo (Metrics_TotalLatency q) 1000000\<rparr>)"
  by (intro ext) (simp add: ObserveQuery_entry succeeded_on_def cur_attempts_def cur_latency_def)

theorem duplicate_delivery_doubles_witness:
  "Err (observed ''10.0.0.1'' 2 25999999 None) = None \<and>
   metrics (fst (ObserveQuery (store [(''10.0.0.1'', 4, 400)]) (observed ''10.0.0.1'' 2 25999999 None)))
     = [''10.0.0.1'' \<mapsto> \<lparr>attempts = 6, latency = 425\<rparr>] \<and>
   metrics (fst (ObserveQuery (fst (ObserveQuery (store [(''10.0.0.1'', 4, 400)])
      (observed ''10.0.0.1'' 2 25999999 None))) (observed ''10.0.0.1'' 2 25999999 None)))
     = [''10.0.0.1'' \<mapsto> \<lparr>attempts = 8, latency = 450\<rparr>]"
  using duplicate_delivery_doubles
    [of "observed ''10.0.0.1'' 2 25999999 None" "store [(''10.0.0.1'', 4, 400)]"]
  by (simp add: observed_def store_def cur_attempts_def cur_latency_def
      go_quo_def signed_divide_int_def ObserveQuery_def)

section \<open>The invariant of the store\<close>

text \<open>
  Claim C7, as the code has it. \<open>ObserveQuery\<close> does not check the attempts an event
  reports, and Go's \<open>int\<close> wraps around. Starting from the empty store of \<open>main\<close>, after
  any sequence of calls whose success events each report at least one attempt and whose
  reported attempts together stay below \<open>2 ^ 63\<close>: whenever a host has an entry, its
  attempts are at least 1, some success event named that host, and its latency is the
  sum of the milliseconds of the success events for that host; the error events can be
  left out of the sequence without changing the store.
\<close>

theorem store_invariant:
  assumes "\<forall>q \<in> set qs. Err q = None \<longrightarrow> 1 \<le> sint (Metrics_Attempts q)"
    and "sum_list (map (\<lambda>q. sint (Metrics_Attempts q)) (filter (\<lambda>q. Err q = None) qs)) < 2 ^ 63"
    and "metrics (observe_all main_observer qs) h = Some m"
  shows "1 \<le> sint (attempts m) \<and>
         latency m = reported_millis h qs \<and>
         (\<exists>q \<in> set qs. Err q = None \<and> Host q = h) \<and>
         observe_all main_observer (filter (\<lambda>q. Err q = None) qs) = observe_all main_observer qs"
proof -
  have none: "metrics main_observer h = None"
    by (simp add: main_observer_def)
  have ex: "\<exists>q \<in> set qs. succeeded_on h q"
    using assms(3) none by (auto simp add: observe_all_entry split: if_splits)
  then have m: "m = \<lparr>attempts = reported_attempts h qs, latency = reported_millis h qs\<rparr>"
    using assms(3) none
    by (simp add: observe_all_entry cur_attempts_def cur_latency_def)
  have "filter (succeeded_on h) qs \<noteq> []"
    using ex by (simp add: filter_empty_conv)
  moreover have "\<forall>q \<in> set (filter (succeeded_on h) qs). 1 \<le> sint (Metrics_Attempts q)"
    using assms(1) by (simp add: succeeded_on_def)
  ultimately have "1 \<le> sum_list (map (\<lambda>q. sint (Metrics_Attempts q)) (filter (succeeded_on h) qs))"
    by (intro sum_list_ge_1)
  then have "1 \<le> sint (reported_attempts h qs)"
    using sint_reported_attempts [OF assms(1,2)] by simp
  with m ex show ?thesis
    by (simp add: observe_all_filter succeeded_on_def)
qed

theorem store_invariant_witness:
  "1 \<le> sint (Metrics_Attempts (observed ''10.0.0.1'' 2 25999999 None)) \<and>
   Err (observed ''10.0.0.1'' 0 7 (Some ''timeout'')) \<noteq> None \<and>
   1 \<le> sint (Metrics_Attempts (observed ''10.0.0.1'' 1 1000000 None)) \<and>
   sum_list (map (\<lambda>q. sint (Metrics_Attempts q)) (filter (\<lambda>q. Err q = None)
      [observed ''10.0.0.1'' 2 25999999 None, observed ''10.0.0.1'' 0 7 (Some ''timeout''),
       observed ''10.0.0.1'' 1 1000000 None])) < 2 ^ 63 \<and>
   metrics (observe_all main_observer
      [observed ''10.0.0.1'' 2 25999999 None, observed ''10.0.0.1'' 0 7 (Some ''timeout''),
       observed ''10.0.0.1'' 1 1000000 None]) ''10.0.0.1'' = Some \<lparr>attempts = 3, latency = 26\<rparr> \<and>
   1 \<le> sint (attempts \<lparr>attempts = 3, latency = 26\<rparr>) \<and>
   latency \<lparr>attempts = 3, latency = 26\<rparr> = reported_millis ''10.0.0.1''
      [observed ''10.0.0.1'' 2 25999999 None, observed ''10.0.0.1'' 0 7 (Some ''timeout''),
       observed ''10.0.0.1'' 1 1000000 None]"
proof -
  let ?qs = "[observed ''10.0.0.1'' 2 25999999 None, observed ''10.0.0.1'' 0 7 (Some ''timeout''),
              observed ''10.0.0.1'' 1 1000000 None]"
  have a: "\<forall>q \<in> set ?qs. Err q = None \<longrightarrow> 1 \<le> sint (Metrics_Attempts q)"
    by (simp add: observed_def)
  have b: "sum_list (map (\<lambda>q. sint (Metrics_Attempts q)) (filter (\<lambda>q. Err q = None) ?qs)) < 2 ^ 63"
    by (simp add: observed_def)
  have c: "metrics (observe_all main_observer ?qs) ''10.0.0.1'' = Some \<lparr>attempts = 3, latency = 26\<rparr>"
    by (simp add: observed_def main_observer_def ObserveQuery_def go_quo_def signed_divide_int_def)
  have d: "1 \<le> sint (Metrics_Attempts (observed ''10.0.0.1'' 2 25999999 None))"
    "Err (observed ''10.0.0.1'' 0 7 (Some ''timeout'')) \<noteq> None"
    "1 \<le> sint (Metrics_Attempts (observed ''10.0.0.1'' 1 1000000 None))"
    by (simp_all add: observed_def)
  from store_invariant [OF a b c] b c d show ?thesis
    by simp
qed

text \<open>
  A success event that reports no attempt creates an entry whose attempts are 0.
\<close>

theorem store_invariant_counterexample:
  "''10.0.0.1'' \<in> dom (metrics (observe_all main_observer [observed ''10.0.0.1'' 0 5000000 None])) \<and>
   sint (cur_attempts (observe_all main_observer [observed ''10.0.0.1'' 0 5000000 None]) ''10.0.0.1'') = 0"
  by (simp add: observed_def main_observer_def ObserveQuery_def cur_attempts_def)

section \<open>Milliseconds\<close>



section \<open>The summary\<close>

text \<open>
  Claim C3, as the code has it. \<open>GetMetrics\<close> has no defence against an entry with 0
  attempts: for every store and every order of the range, it stops in the panic
  \<open>integer divide by zero\<close> exactly when some entry of the store has attempts 0, and
  completes exactly when none has; what it has printed is the lines of the hosts that
  come before the first entry with attempts 0, so that host is neither skipped nor
  reported in another form.
\<close>

theorem summary_panics_on_zero_attempts:
  assumes "range_order ob hs"
  shows "(snd (GetMetrics ob hs) = Some IntegerDivideByZero) = (\<exists>h \<in> dom (metrics ob). cur_attempts ob h = 0) \<and>
         (snd (GetMetrics ob hs) = None) = (\<not> (\<exists>h \<in> dom (metrics ob). cur_attempts ob h = 0)) \<and>
         fst (GetMetrics ob hs) = map (host_line ob) (takeWhile (\<lambda>h. cur_attempts ob h \<noteq> 0) hs)"
proof -
  from assms have "set hs \<subseteq> dom (metrics ob)" and eq: "set hs = dom (metrics ob)"
    by (simp_all add: range_order_def)
  from GetMetrics_eq [OF this(1)] eq show ?thesis by simp
qed

theorem summary_panics_on_zero_attempts_witness:
  "range_order (store [(''10.0.0.1'', 4, 400), (''10.0.0.2'', 0, 7)]) [''10.0.0.1'', ''10.0.0.2''] \<and>
   GetMetrics (store [(''10.0.0.1'', 4, 400), (''10.0.0.2'', 0, 7)]) [''10.0.0.1'', ''10.0.0.2''] =
     ([''Host: 10.0.0.1, Attempts: 4, Avg Latency: 100ms'' @ [CHR 0x0A]], Some IntegerDivideByZero)"
proof -
  let ?ob = "store [(''10.0.0.1'', 4, 400), (''10.0.0.2'', 0, 7)]"
  have r: "range_order ?ob [''10.0.0.1'', ''10.0.0.2'']"
    by (auto simp add: range_order_def store_def)
  have z: "\<exists>h \<in> dom (metrics ?ob). cur_attempts ?ob h = 0"
    by (simp add: store_def cur_attempts_def)
  have l: "host_line ?ob ''10.0.0.1'' = ''Host: 10.0.0.1, Attempts: 4, Avg Latency: 100ms'' @ [CHR 0x0A]"
    by (simp add: store_def host_line_def summary_line_def fmt_v_4 fmt_v_100 go_quo_400_4)
  have t: "takeWhile (\<lambda>h. cur_attempts ?ob h \<noteq> 0) [''10.0.0.1'', ''10.0.0.2''] = [''10.0.0.1'']"
    by (simp add: store_def cur_attempts_def)
  from summary_panics_on_zero_attempts [OF r] z have
    "snd (GetMetrics ?ob [''10.0.0.1'', ''10.0.0.2'']) = Some IntegerDivideByZero"
    "fst (GetMetrics ?ob [''10.0.0.1'', ''10.0.0.2'']) = [host_line ?ob ''10.0.0.1'']"
    by (simp_all only: t list.map)
  with r l show ?thesis
    by (simp add: prod_eq_iff)
qed

text \<open>
  With the entry of 0 attempts first in the range, nothing is printed before the panic.
\<close>

theorem summary_not_defended_counterexample:
  "GetMetrics (store [(''10.0.0.1'', 4, 400), (''10.0.0.2'', 0, 7)]) [''10.0.0.2'', ''10.0.0.1''] =
     ([], Some IntegerDivideByZero)"
  by (simp add: store_def go_div_def)

text \<open>
  Claim C6, as the code has it. For every store in which no entry has attempts 0, and
  every order of the range, \<open>GetMetrics\<close> completes and prints one line for each host of
  the store, in that order, of the form \<open>Host: <id>, Attempts: <n>, Avg Latency: <ms>ms\<close>
  followed by a newline, where \<open><ms>\<close> is the latency divided by the attempts; for an
  entry with 4 attempts and latency 400 the line reports 100ms.
\<close>

theorem summary_one_line_per_host:
  assumes "range_order ob hs" and "\<forall>h \<in> dom (metrics ob). cur_attempts ob h \<noteq> 0"
  shows "GetMetrics ob hs = (map (host_line ob) hs, None) \<and>
         length (fst (GetMetrics ob hs)) = card (dom (metrics ob)) \<and>
         (\<forall>h m. metrics ob h = Some m \<longrightarrow>
            host_line ob h = ''Host: '' @ h @ '', Attempts: '' @ fmt_v (attempts m) @
              '', Avg Latency: '' @ fmt_v (go_quo (latency m) (attempts m)) @ ''ms'' @ [CHR 0x0A]) \<and>
         (\<forall>h. metrics ob h = Some \<lparr>attempts = 4, latency = 400\<rparr> \<longrightarrow>
            host_line ob h = ''Host: '' @ h @ '', Attempts: 4, Avg Latency: 100ms'' @ [CHR 0x0A])"
proof -
  from assms(1) have sub: "set hs \<subseteq> dom (metrics ob)" and eq: "set hs = dom (metrics ob)"
    and d: "distinct hs"
    by (simp_all add: range_order_def)
  have tw: "takeWhile (\<lambda>h. cur_attempts ob h \<noteq> 0) hs = hs"
    using assms(2) eq by (simp add: takeWhile_eq_all_conv)
  have g: "GetMetrics ob hs = (map (host_line ob) hs, None)"
    using GetMetrics_eq [OF sub] assms(2) eq by (simp add: tw)
  have "card (dom (metrics ob)) = length hs"
    using d eq distinct_card [of hs] by simp
  with g show ?thesis
    by (simp add: host_line_def summary_line_def fmt_v_4 fmt_v_100 go_quo_400_4)
qed

theorem summary_one_line_per_host_witness:
  "range_order (store [(''10.0.0.1'', 4, 400), (''10.0.0.2'', 3, 25)]) [''10.0.0.2'', ''10.0.0.1''] \<and>
   dom (metrics (store [(''10.0.0.1'', 4, 400), (''10.0.0.2'', 3, 25)])) = {''10.0.0.1'', ''10.0.0.2''} \<and>
   cur_attempts (store [(''10.0.0.1'', 4, 400), (''10.0.0.2'', 3, 25)]) ''10.0.0.1'' \<noteq> 0 \<and>
   cur_attempts (store [(''10.0.0.1'', 4, 400), (''10.0.0.2'', 3, 25)]) ''10.0.0.2'' \<noteq> 0 \<and>
   GetMetrics (store [(''10.0.0.1'', 4, 400), (''10.0.0.2'', 3, 25)]) [''10.0.0.2'', ''10.0.0.1''] =
     ([''Host: 10.0.0.2, Attempts: 3, Avg Latency: 8ms'' @ [CHR 0x0A],
       ''Host: 10.0.0.1, Attempts: 4, Avg Latency: 100ms'' @ [CHR 0x0A]], None)"
proof -
  let ?ob = "store [(''10.0.0.1'', 4, 400), (''10.0.0.2'', 3, 25)]"
  have r: "range_order ?ob [''10.0.0.2'', ''10.0.0.1'']"
    by (auto simp add: range_order_def store_def)
  have z: "\<forall>h \<in> dom (metrics ?ob). cur_attempts ?ob h \<noteq> 0"
    by (simp add: store_def cur_attempts_def)
  have l: "host_line ?ob ''10.0.0.1'' = ''Host: 10.0.0.1, Attempts: 4, Avg Latency: 100ms'' @ [CHR 0x0A]"
    "host_line ?ob ''10.0.0.2'' = ''Host: 10.0.0.2, Attempts: 3, Avg Latency: 8ms'' @ [CHR 0x0A]"
    by (simp_all add: store_def host_line_def summary_line_def fmt_v_def show_int_def
        show_nat.simps digit_def go_quo_def signed_divide_int_def)
  from summary_one_line_per_host [OF r z] have
    "GetMetrics ?ob [''10.0.0.2'', ''10.0.0.1''] = (map (host_line ?ob) [''10.0.0.2'', ''10.0.0.1''], None)"
    by (rule conjunct1)
  moreover have "dom (metrics ?ob) = {''10.0.0.1'', ''10.0.0.2''}"
    by (auto simp add: store_def)
  moreover have "cur_attempts ?ob ''10.0.0.1'' \<noteq> 0" "cur_attempts ?ob ''10.0.0.2'' \<noteq> 0"
    by (simp_all add: store_def cur_attempts_def)
  ultimately show ?thesis using r l
    by simp
qed

text \<open>
  On the store whose only entry has 0 attempts the summary prints no line for that host.
\<close>

theorem summary_zero_attempts_counterexample:
  "dom (metrics (store [(''10.0.0.1'', 0, 0)])) = {''10.0.0.1''} \<and>
   GetMetrics (store [(''10.0.0.1'', 0, 0)]) [''10.0.0.1''] = ([], Some IntegerDivideByZero)"
  by (simp add: store_def go_div_def)

section \<open>The retry policy of \<open>main\<close>\<close>

text \<open>
  Claim C4, as the code has it. With \<open>num = 3\<close> as in \<open>main\<close>, \<open>Attempt\<close> returns true
  exactly when the query has made at most 3 attempts: it still returns true for a query
  that has made 3 attempts, and returns false whenever the query has made more than 3.
\<close>

theorem retry_budget_three:
  "Attempt main_RetryPolicy q = (sint (Attempts q) \<le> 3) \<and>
   Attempt main_RetryPolicy (q\<lparr>Attempts := 3\<rparr>) \<and>
   (3 < sint (Attempts q) \<longrightarrow> \<not> Attempt main_RetryPolicy q)"
  by (simp add: Attempt_def main_RetryPolicy_def word_sle_eq)

theorem retry_budget_three_witness:
  "3 < sint (Attempts \<lparr>Attempts = 4\<rparr>) \<and> \<not> Attempt main_RetryPolicy \<lparr>Attempts = 4\<rparr> \<and>
   Attempt main_RetryPolicy (\<lparr>Attempts = 4\<rparr>\<lparr>Attempts := 3\<rparr>)"
  using retry_budget_three [of "\<lparr>Attempts = 4\<rparr>"]
  by simp

text \<open>
  For a query that has already made 3 attempts \<open>Attempt\<close> returns true.
\<close>

theorem fourth_attempt_counterexample:
  "Attempts \<lparr>Attempts = 3\<rparr> = 3 \<and> Attempt main_RetryPolicy \<lparr>Attempts = 3\<rparr>"
  by (simp add: Attempt_def main_RetryPolicy_def)

text \<open>
  Claim C5. For every query and every budget \<open>num\<close>, \<open>Attempt\<close> returns true exactly when
  the attempts made so far are at most \<open>num\<close> (a signed comparison); two queries with the
  same attempt count get the same answer whatever else they hold; \<open>GetRetryType\<close> returns
  the same disposition, \<open>Rethrow\<close>, for every error. Both functions only compute their
  result: neither changes the policy or the query.
\<close>

theorem retry_decision_by_count:
  "Attempt rt q = (sint (Attempts q) \<le> sint (num rt)) \<and>
   (Attempts q = Attempts q' \<longrightarrow> Attempt rt q = Attempt rt q') \<and>
   GetRetryType rt e = GetRetryType rt e' \<and>
   GetRetryType rt e = Rethrow"
  by (simp add: Attempt_def GetRetryType_def word_sle_eq)

theorem retry_decision_by_count_witness:
  "Attempts \<lparr>Attempts = 2, \<dots> = ''INSERT''\<rparr> = Attempts \<lparr>Attempts = 2, \<dots> = True\<rparr> \<and>
   Attempt \<lparr>num = 3\<rparr> \<lparr>Attempts = 2, \<dots> = ''INSERT''\<rparr> \<and>
   Attempt \<lparr>num = 3\<rparr> \<lparr>Attempts = 2, \<dots> = True\<rparr> \<and>
   GetRetryType \<lparr>num = 3\<rparr> ''timeout'' = GetRetryType \<lparr>num = 3\<rparr> ''unavailable''"
  using retry_decision_by_count
    [of "\<lparr>num = 3\<rparr>" "\<lparr>Attempts = 2, \<dots> = ''INSERT''\<rparr>" "\<lparr>Attempts = 2, \<dots> = True\<rparr>"
        "''timeout''" "''unavailable''"]
  by auto

end
